theory Spec2Isabelle
  imports Main "HOL-Library.Word"
begin

unbundle bit_operations_syntax

section \<open>NamedPipe: the data model\<close>

text \<open>
  The development embeds \<^verbatim>\<open>src/NamedPipe.cpp\<close> and \<^verbatim>\<open>include/npipe/NamedPipe.hpp\<close>.
  A \<^verbatim>\<open>std::filesystem::path\<close> is its string, a \<^verbatim>\<open>std::byte\<close> an 8-bit word, a
  \<^verbatim>\<open>std::chrono::milliseconds\<close> its (signed) tick count. The tick count is an \<open>int\<close>:
  the code only ever subtracts one interval from a budget that is larger than the
  interval, so no operation on it can overflow.
\<close>

type_synonym path = string
type_synonym byte = "8 word"
type_synonym millis = int

text \<open>Objects that a function reaches through references live in a store, at addresses.\<close>

type_synonym addr = nat

text \<open>The class \<^verbatim>\<open>NamedPipe\<close> (POSIX build): the path and the atomic flag \<^verbatim>\<open>m_break\<close>.\<close>

record NamedPipe =
  m_pipePath :: path
  m_break :: bool

text \<open>The Windows build adds the retained handle; \<^verbatim>\<open>INVALID_HANDLE_VALUE\<close> is \<open>-1\<close>.\<close>

record NamedPipeW = NamedPipe +
  m_handle :: int

definition INVALID_HANDLE_VALUE :: int where
  "INVALID_HANDLE_VALUE = - 1"

text \<open>
  The exceptions of the library (\<^verbatim>\<open>TimeoutException\<close>, \<^verbatim>\<open>InterruptException\<close>,
  \<^verbatim>\<open>PipeException<int>(code, context)\<close>), and the abort of a failed \<^verbatim>\<open>assert\<close>.
\<close>

datatype exn =
    TimeoutException
  | InterruptException
  | PipeException int string
  | AssertionFailure

definition PIPE_WAIT_INTERVAL :: millis where
  "PIPE_WAIT_INTERVAL = 1"

definition PIPE_WRITE_WAIT_INTERVAL :: millis where
  "PIPE_WRITE_WAIT_INTERVAL = 1"

definition PIPE_BUFFER_SIZE :: nat where
  "PIPE_BUFFER_SIZE = 256"

section \<open>The operating system as seen by one call\<close>

text \<open>
  A system call either fails (it returns \<open>-1\<close> and stores the error number in
  \<^verbatim>\<open>errno\<close>) or delivers its result.
\<close>

datatype 'a sysres = Fail int | Done 'a

datatype oflag = O_RDONLY_NONBLOCK | O_WRONLY_NONBLOCK

text \<open>
  What a call does that is visible outside of the object: its system calls with their
  arguments, the lines it prints to \<^verbatim>\<open>std::cerr\<close>, its sleeps, and its stores to the
  atomic flag that other threads load.
\<close>

datatype event =
    SysMkfifo path
  | SysOpen path oflag
  | SysClose int
  | SysWrite int "byte list"
  | SysRead int nat
  | SysPoll int millis
  | SleepFor millis
  | FsRemove path
  | Cerr string
  | CerrCode string int
  | StoreBreak bool

fun os_action :: "event \<Rightarrow> bool" where
  "os_action (StoreBreak b) = False"
| "os_action e = True"

text \<open>
  The environment of one call of a member function: what the operating system answers,
  by attempt number within the call, and whether a store of another thread's
  \<^verbatim>\<open>interrupt()\<close> is visible to the \<open>i\<close>-th load of \<^verbatim>\<open>m_break\<close>. The two constants
  of the system headers that the code refers to are fields too, so every statement holds for
  whatever value a platform gives them.
\<close>

record env =
  EAGAIN :: int
  POLLIN :: "16 word"
  mkfifo_res :: "unit sysres"
  open_res :: "nat \<Rightarrow> nat sysres"
  write_res :: "nat sysres"
  poll_res :: "nat \<Rightarrow> 16 word sysres"
  read_res :: "nat \<Rightarrow> byte list sysres"
  close_res :: "unit sysres"
  remove_res :: int
  ext_interrupt :: "nat \<Rightarrow> bool"

text \<open>The state a call threads: \<^verbatim>\<open>errno\<close> and the trace of what it has done so far.\<close>

record world =
  errno :: int
  trace :: "event list"

definition emit :: "event \<Rightarrow> world \<Rightarrow> world" where
  "emit e w = w\<lparr>trace := trace w @ [e]\<rparr>"

definition sys_ret :: "'a sysres \<Rightarrow> ('a \<Rightarrow> int) \<Rightarrow> world \<Rightarrow> int \<times> world" where
  "sys_ret r val w = (case r of Fail e \<Rightarrow> (- 1, w\<lparr>errno := e\<rparr>) | Done x \<Rightarrow> (val x, w))"

definition sys_mkfifo :: "env \<Rightarrow> path \<Rightarrow> world \<Rightarrow> int \<times> world" where
  "sys_mkfifo os p w = sys_ret (mkfifo_res os) (\<lambda>_. 0) (emit (SysMkfifo p) w)"

definition sys_open :: "env \<Rightarrow> nat \<Rightarrow> path \<Rightarrow> oflag \<Rightarrow> world \<Rightarrow> int \<times> world" where
  "sys_open os i p fl w = sys_ret (open_res os i) int (emit (SysOpen p fl) w)"

definition sys_close :: "env \<Rightarrow> int \<Rightarrow> world \<Rightarrow> int \<times> world" where
  "sys_close os fd w = sys_ret (close_res os) (\<lambda>_. 0) (emit (SysClose fd) w)"

definition sys_write :: "env \<Rightarrow> int \<Rightarrow> byte list \<Rightarrow> world \<Rightarrow> int \<times> world" where
  "sys_write os fd bytes w = sys_ret (write_res os) int (emit (SysWrite fd bytes) w)"

text \<open>
  \<^verbatim>\<open>::poll\<close> on one descriptor returns the number of descriptors with events and stores
  their \<^verbatim>\<open>revents\<close>; when it fails, \<^verbatim>\<open>revents\<close> keeps what it held.
\<close>

definition sys_poll ::
  "env \<Rightarrow> nat \<Rightarrow> int \<Rightarrow> 16 word \<Rightarrow> millis \<Rightarrow> world \<Rightarrow> (int \<times> 16 word) \<times> world" where
  "sys_poll os i fd revents tmo w =
     (let w1 = emit (SysPoll fd tmo) w in
      case poll_res os i of
        Fail e \<Rightarrow> ((- 1, revents), w1\<lparr>errno := e\<rparr>)
      | Done rv \<Rightarrow> ((if rv = 0 then 0 else 1, rv), w1))"

text \<open>
  \<^verbatim>\<open>::read(fd, buffer, count)\<close> stores at most \<open>count\<close> bytes at the start of the buffer
  and returns how many; the second component is what it stored.
\<close>

definition sys_read ::
  "env \<Rightarrow> nat \<Rightarrow> int \<Rightarrow> nat \<Rightarrow> world \<Rightarrow> (int \<times> byte list) \<times> world" where
  "sys_read os j fd count w =
     (let w1 = emit (SysRead fd count) w in
      case read_res os j of
        Fail e \<Rightarrow> ((- 1, []), w1\<lparr>errno := e\<rparr>)
      | Done bs \<Rightarrow> ((int (length (take count bs)), take count bs), w1))"

text \<open>
  \<^verbatim>\<open>std::filesystem::remove(path, errorCode)\<close>: the overload that reports through the
  error code and never throws; \<open>0\<close> is no error.
\<close>

definition fs_remove :: "env \<Rightarrow> path \<Rightarrow> world \<Rightarrow> int \<times> world" where
  "fs_remove os p w =
     (let w1 = emit (FsRemove p) w in
      if remove_res os = 0 then (0, w1) else (remove_res os, w1\<lparr>errno := remove_res os\<rparr>))"

definition sleep_for :: "millis \<Rightarrow> world \<Rightarrow> world" where
  "sleep_for d w = emit (SleepFor d) w"

section \<open>The handle guard\<close>

text \<open>
  \<^verbatim>\<open>~FileHandleWrapper\<close> with \<^verbatim>\<open>invalid_handle = -1\<close> and \<^verbatim>\<open>successCode = 0\<close>: a valid
  handle is closed, and a failed close is only reported.
\<close>

definition close_guard :: "env \<Rightarrow> int \<Rightarrow> world \<Rightarrow> world" where
  "close_guard os h w =
     (if h \<noteq> - 1
      then (let (rc, w1) = sys_close os h w in
            if rc \<noteq> 0 then emit (Cerr ''Failed at closing guarded handle'') w1 else w1)
      else w)"

section \<open>Member functions without system calls\<close>

definition getPath :: "'a NamedPipe_scheme \<Rightarrow> path" where
  "getPath this = m_pipePath this"

definition isValid :: "'a NamedPipe_scheme \<Rightarrow> bool" where
  "isValid this = (\<not> (m_pipePath this = []))"

definition interrupt :: "NamedPipe \<times> world \<Rightarrow> NamedPipe \<times> world" where
  "interrupt s = (case s of (this, w) \<Rightarrow> (this\<lparr>m_break := True\<rparr>, emit (StoreBreak True) w))"

text \<open>\<^verbatim>\<open>NamedPipe()\<close> and the private \<^verbatim>\<open>NamedPipe(path)\<close>.\<close>

definition NamedPipe_default :: NamedPipe where
  "NamedPipe_default = \<lparr>m_pipePath = [], m_break = False\<rparr>"

definition NamedPipe_of :: "path \<Rightarrow> NamedPipe" where
  "NamedPipe_of p = \<lparr>m_pipePath = p, m_break = False\<rparr>"

section \<open>The POSIX backend\<close>

text \<open>\<^verbatim>\<open>NamedPipe::create\<close>: \<^verbatim>\<open>mkfifo\<close>, then the private constructor.\<close>

definition create :: "env \<Rightarrow> path \<Rightarrow> world \<Rightarrow> (exn + NamedPipe) \<times> world" where
  "create os pipePath w =
     (let (rc, w1) = sys_mkfifo os pipePath w in
      if rc \<noteq> 0 then (Inl (PipeException (errno w1) ''Create''), w1)
      else (Inr (NamedPipe_of pipePath), w1))"

text \<open>
  The \<^verbatim>\<open>do ... while (!handle)\<close> loop of \<^verbatim>\<open>NamedPipe::write\<close>. \<open>i\<close> numbers the
  attempts of the call. The result holds the value of the local \<^verbatim>\<open>timeout\<close> when the loop
  is left, on either way out.
\<close>

function open_retry ::
  "env \<Rightarrow> path \<Rightarrow> millis \<Rightarrow> nat \<Rightarrow> world \<Rightarrow> (exn + int) \<times> millis \<times> world" where
  "open_retry os pipePath timeout i w =
     (let (handle, w1) = sys_open os i pipePath O_WRONLY_NONBLOCK w in
      if \<not> (handle \<noteq> - 1)
      then (if timeout > PIPE_WRITE_WAIT_INTERVAL
            then open_retry os pipePath (timeout - PIPE_WRITE_WAIT_INTERVAL) (Suc i)
                   (sleep_for PIPE_WRITE_WAIT_INTERVAL w1)
            else (Inl TimeoutException, timeout, w1))
      else (Inr handle, timeout, w1))"
  by pat_completeness auto
termination
  by (relation "measure (\<lambda>(os, pipePath, timeout, i, w). nat timeout)")
     (auto simp: PIPE_WRITE_WAIT_INTERVAL_def)

declare open_retry.simps [simp del]

text \<open>
  The static \<^verbatim>\<open>NamedPipe::write\<close> (\<open>write\<close> is a keyword of Isabelle, hence the
  suffix). \<open>message\<close> is what the pointer refers to (\<open>None\<close> for a null pointer); the
  range handed to \<^verbatim>\<open>::write\<close> is its first \<open>messageSize\<close> bytes. The exception is built
  from \<^verbatim>\<open>errno\<close> before the guard closes the handle. The POSIX body discards its last
  parameter \<^verbatim>\<open>waitUntilWritten\<close>, which the model leaves out.
\<close>

definition write_static ::
  "env \<Rightarrow> path \<Rightarrow> byte list option \<Rightarrow> nat \<Rightarrow> millis \<Rightarrow> world \<Rightarrow> (exn + unit) \<times> world" where
  "write_static os pipePath message messageSize timeout w =
     (case message of
        None \<Rightarrow> (Inl AssertionFailure, w)
      | Some bytes \<Rightarrow>
          (case open_retry os pipePath timeout 0 w of
             (Inl e, t, w1) \<Rightarrow> (Inl e, w1)
           | (Inr handle, t, w1) \<Rightarrow>
               (let (written, w2) = sys_write os handle (take messageSize bytes) w1 in
                if written < 0
                then (Inl (PipeException (errno w2) ''Write''), close_guard os handle w2)
                else (Inr (), close_guard os handle w2))))"

text \<open>The member \<^verbatim>\<open>write\<close> forwards to the static one with the object's path.\<close>

definition write_member ::
  "env \<Rightarrow> NamedPipe \<Rightarrow> byte list option \<Rightarrow> nat \<Rightarrow> millis \<Rightarrow> world \<Rightarrow> (exn + unit) \<times> world" where
  "write_member os this message messageSize timeout w =
     (case message of
        None \<Rightarrow> (Inl AssertionFailure, w)
      | Some bytes \<Rightarrow> write_static os (m_pipePath this) message messageSize timeout w)"

text \<open>
  The load of \<^verbatim>\<open>m_break\<close> in the \<open>i\<close>-th iteration of the wait loop: the flag of the
  object, or a store that another thread has made by then.
\<close>

definition load_break :: "env \<Rightarrow> NamedPipe \<Rightarrow> nat \<Rightarrow> bool" where
  "load_break os this i = (m_break this \<or> ext_interrupt os i)"

text \<open>
  The readiness loop of \<^verbatim>\<open>read_blocking\<close>: \<^verbatim>\<open>while (poll(...) != -1 && !(revents & POLLIN))\<close>.
  \<open>revents\<close> is the field of \<^verbatim>\<open>pollData\<close>, \<open>i\<close> numbers the iterations.
\<close>

function wait_readable ::
  "env \<Rightarrow> NamedPipe \<Rightarrow> int \<Rightarrow> 16 word \<Rightarrow> millis \<Rightarrow> nat \<Rightarrow> world
     \<Rightarrow> (exn + unit) \<times> millis \<times> world" where
  "wait_readable os this handle revents timeout i w =
     (let ((rc, revents1), w1) = sys_poll os i handle revents PIPE_WAIT_INTERVAL w in
      if rc \<noteq> - 1 \<and> \<not> (revents1 AND POLLIN os \<noteq> 0)
      then (if load_break os this i then (Inl InterruptException, timeout, w1)
            else if timeout > PIPE_WAIT_INTERVAL
            then wait_readable os this handle revents1 (timeout - PIPE_WAIT_INTERVAL) (Suc i) w1
            else (Inl TimeoutException, timeout, w1))
      else (Inr (), timeout, w1))"
  by pat_completeness auto
termination
  by (relation "measure (\<lambda>(os, this, handle, revents, timeout, i, w). nat timeout)")
     (auto simp: PIPE_WAIT_INTERVAL_def)

declare wait_readable.simps [simp del]

text \<open>
  The loop \<^verbatim>\<open>while ((readBytes = ::read(...)) > 0)\<close>. Nothing bounds it: it runs for as
  long as the reads keep delivering data, so it is a partial function; \<open>None\<close> is the loop
  that never ends. It returns the last \<^verbatim>\<open>readBytes\<close> and the message.
\<close>

partial_function (option) drain ::
  "env \<Rightarrow> int \<Rightarrow> byte list \<Rightarrow> nat \<Rightarrow> world \<Rightarrow> ((int \<times> byte list) \<times> world) option" where
  "drain os handle message j w =
     (case sys_read os j handle PIPE_BUFFER_SIZE w of
        ((readBytes, buffer), w1) \<Rightarrow>
          if readBytes > 0
          then drain os handle (message @ take (nat readBytes) buffer) (Suc j) w1
          else Some ((readBytes, message), w1))"

text \<open>\<^verbatim>\<open>NamedPipe::read_blocking\<close>; the guard closes the handle on every way out.\<close>

definition read_blocking ::
  "env \<Rightarrow> NamedPipe \<Rightarrow> millis \<Rightarrow> world \<Rightarrow> ((exn + byte list) \<times> world) option" where
  "read_blocking os this timeout w =
     (let (handle, w1) = sys_open os 0 (m_pipePath this) O_RDONLY_NONBLOCK w in
      if handle = - 1 then Some (Inl (PipeException (errno w1) ''Open''), w1)
      else
        (case wait_readable os this handle (- 1) timeout 0 w1 of
           (Inl e, t, w2) \<Rightarrow> Some (Inl e, close_guard os handle w2)
         | (Inr u, t, w2) \<Rightarrow>
             (case drain os handle [] 0 w2 of
                None \<Rightarrow> None
              | Some ((readBytes, message), w3) \<Rightarrow>
                  if readBytes = - 1 \<and> errno w3 \<noteq> EAGAIN os
                  then Some (Inl (PipeException (errno w3) ''Read''), close_guard os handle w3)
                  else Some (Inr message, close_guard os handle w3))))"

text \<open>
  The POSIX move constructor, on the pair (constructed object, source). The constructed
  object is new, so it is not the source; it starts from the default member initialiser of
  \<^verbatim>\<open>m_break\<close>, and the flag of \<open>other\<close> is not touched.
\<close>

definition move_construct :: "NamedPipe \<Rightarrow> NamedPipe \<times> NamedPipe" where
  "move_construct other =
     (\<lparr>m_pipePath = m_pipePath other, m_break = False\<rparr>, other\<lparr>m_pipePath := []\<rparr>)"

text \<open>
  The POSIX move assignment. \<open>this\<close> and \<open>other\<close> are references and may be the same
  object (\<^verbatim>\<open>a = std::move(a)\<close>; the code has no guard against it), so the function works
  on a store of objects, one statement after the other: first the path of \<open>other\<close> is
  assigned to \<open>this\<close>, then the path of \<open>other\<close> is cleared. Neither flag is touched.
  When the two are one object, whatever the assignment of a path to itself leaves is
  overwritten by the clearing.
\<close>

definition move_assign :: "addr \<Rightarrow> addr \<Rightarrow> (addr \<Rightarrow> NamedPipe) \<Rightarrow> (addr \<Rightarrow> NamedPipe)" where
  "move_assign this other s =
     (let s1 = s(this := (s this)\<lparr>m_pipePath := m_pipePath (s other)\<rparr>);
          s2 = s1(other := (s1 other)\<lparr>m_pipePath := []\<rparr>)
      in s2)"

text \<open>\<^verbatim>\<open>NamedPipe::destroy\<close> (POSIX); the destructor is a call of it.\<close>

definition destroy :: "env \<Rightarrow> NamedPipe \<times> world \<Rightarrow> NamedPipe \<times> world" where
  "destroy os s =
     (case s of (this, w) \<Rightarrow>
        (let this1 = this\<lparr>m_break := True\<rparr>; w1 = emit (StoreBreak True) w in
         if \<not> (m_pipePath this1 = [])
         then (let (errorCode, w2) = fs_remove os (m_pipePath this1) w1;
                   w3 = (if errorCode \<noteq> 0
                         then emit (CerrCode ''Failed at deleting pipe-object: '' errorCode) w2
                         else w2)
               in (this1\<lparr>m_pipePath := []\<rparr>, w3))
         else (this1, w1)))"

definition destructor :: "env \<Rightarrow> NamedPipe \<times> world \<Rightarrow> NamedPipe \<times> world" where
  "destructor os s = destroy os s"

section \<open>The Windows backend: moving\<close>

text \<open>
  The Windows move constructor, and the move assignment on a store of objects, statement
  by statement as in the POSIX one: path, handle and flag of \<open>other\<close> are assigned to
  \<open>this\<close>, then \<open>true\<close> is stored into the flag of \<open>other\<close>, its path is cleared and
  its handle set to the invalid one.
\<close>

definition move_construct_win :: "NamedPipeW \<Rightarrow> NamedPipeW \<times> NamedPipeW" where
  "move_construct_win other =
     (\<lparr>m_pipePath = m_pipePath other, m_break = False, m_handle = m_handle other\<rparr>,
      other\<lparr>m_pipePath := [], m_handle := INVALID_HANDLE_VALUE\<rparr>)"

definition move_assign_win ::
  "addr \<Rightarrow> addr \<Rightarrow> (addr \<Rightarrow> NamedPipeW) \<Rightarrow> (addr \<Rightarrow> NamedPipeW)" where
  "move_assign_win this other s =
     (let s1 = s(this := (s this)\<lparr>m_pipePath := m_pipePath (s other)\<rparr>);
          s2 = s1(this := (s1 this)\<lparr>m_handle := m_handle (s1 other)\<rparr>);
          s3 = s2(this := (s2 this)\<lparr>m_break := m_break (s2 other)\<rparr>);
          s4 = s3(other := (s3 other)\<lparr>m_break := True\<rparr>);
          s5 = s4(other := (s4 other)\<lparr>m_pipePath := []\<rparr>);
          s6 = s5(other := (s5 other)\<lparr>m_handle := INVALID_HANDLE_VALUE\<rparr>)
      in s6)"

section \<open>Vocabulary of the statements\<close>

text \<open>The \<open>i\<close>-th \<^verbatim>\<open>::open\<close> of the call fails.\<close>

definition open_fails :: "env \<Rightarrow> nat \<Rightarrow> bool" where
  "open_fails os i = (case open_res os i of Fail e \<Rightarrow> True | Done fd \<Rightarrow> False)"

text \<open>
  The number of iterations a budget allows when nothing ends the loop earlier: the
  budget in intervals of one millisecond, and one iteration at least.
\<close>

definition attempts :: "millis \<Rightarrow> nat" where
  "attempts timeout = nat (max 1 timeout)"

text \<open>
  What the retry loop of \<^verbatim>\<open>write\<close> does when its first \<open>k\<close> opens fail: \<open>k\<close> times
  an open and a sleep, then one more open.
\<close>

definition retry_events :: "path \<Rightarrow> nat \<Rightarrow> event list" where
  "retry_events p k =
     concat (replicate k [SysOpen p O_WRONLY_NONBLOCK, SleepFor PIPE_WRITE_WAIT_INTERVAL])
       @ [SysOpen p O_WRONLY_NONBLOCK]"

text \<open>The \<open>i\<close>-th \<^verbatim>\<open>::poll\<close> succeeds and reports no \<^verbatim>\<open>POLLIN\<close>: nothing is readable.\<close>

definition poll_idle :: "env \<Rightarrow> nat \<Rightarrow> bool" where
  "poll_idle os i = (case poll_res os i of Fail e \<Rightarrow> False | Done rv \<Rightarrow> rv AND POLLIN os = 0)"

text \<open>\<open>n\<close> polls of the handle, each with the wait interval as its timeout.\<close>

definition polls :: "int \<Rightarrow> nat \<Rightarrow> event list" where
  "polls h n = replicate n (SysPoll h PIPE_WAIT_INTERVAL)"

text \<open>
  From read number \<open>b\<close> on, the reads deliver the chunks \<open>cs\<close>, each with at least one
  byte and at most a buffer's worth.
\<close>

fun serves :: "env \<Rightarrow> nat \<Rightarrow> byte list list \<Rightarrow> bool" where
  "serves os b [] = True"
| "serves os b (c # cs) =
     (read_res os b = Done c \<and> c \<noteq> [] \<and> length c \<le> PIPE_BUFFER_SIZE \<and> serves os (Suc b) cs)"

text \<open>A read result that is not positive: a failure or zero bytes.\<close>

fun ends_message :: "byte list sysres \<Rightarrow> bool" where
  "ends_message (Fail e) = True"
| "ends_message (Done bs) = (bs = [])"

text \<open>\<open>n\<close> reads of the handle into the buffer.\<close>

definition reads :: "int \<Rightarrow> nat \<Rightarrow> event list" where
  "reads h n = replicate n (SysRead h PIPE_BUFFER_SIZE)"

text \<open>What the guard of a valid handle does: the close and, if it fails, the diagnostic.\<close>

definition close_events :: "env \<Rightarrow> int \<Rightarrow> event list" where
  "close_events os h =
     SysClose h # (case close_res os of Fail e \<Rightarrow> [Cerr ''Failed at closing guarded handle'']
                   | Done u \<Rightarrow> [])"

text \<open>
  The trace of a \<^verbatim>\<open>read_blocking\<close> that opened the pipe: the open, \<open>k\<close> polls,
  \<open>n\<close> reads and the guard.
\<close>

definition read_phase :: "env \<Rightarrow> path \<Rightarrow> int \<Rightarrow> nat \<Rightarrow> nat \<Rightarrow> event list" where
  "read_phase os p h k n =
     SysOpen p O_RDONLY_NONBLOCK # polls h k @ reads h n @ close_events os h"

text \<open>The bound as the specification words it: the budget divided by the interval, rounded up.\<close>

definition ceil_div :: "int \<Rightarrow> int \<Rightarrow> int" where
  "ceil_div a b = (a + b - 1) div b"

text \<open>Selectors on events, for counting.\<close>

fun is_open :: "event \<Rightarrow> bool" where
  "is_open (SysOpen p fl) = True"
| "is_open e = False"

fun is_poll :: "event \<Rightarrow> bool" where
  "is_poll (SysPoll h t) = True"
| "is_poll e = False"

fun is_write :: "event \<Rightarrow> bool" where
  "is_write (SysWrite h bs) = True"
| "is_write e = False"

text \<open>The bytes of a message that the \<^verbatim>\<open>::write\<close> of the call took.\<close>

definition accepted :: "env \<Rightarrow> byte list \<Rightarrow> byte list" where
  "accepted os bytes = (case write_res os of Fail e \<Rightarrow> [] | Done m \<Rightarrow> take m bytes)"

section \<open>Environments for the examples\<close>

text \<open>
  The constants are those of Linux (\<^verbatim>\<open>EAGAIN = 11\<close>, \<^verbatim>\<open>POLLIN = 1\<close>). In
  \<open>quiet_env\<close> no pipe can be opened (\<^verbatim>\<open>ENXIO = 6\<close>), nothing becomes readable and
  nobody interrupts.
\<close>

definition quiet_env :: env where
  "quiet_env = \<lparr>EAGAIN = 11, POLLIN = 1, mkfifo_res = Done (), open_res = (\<lambda>i. Fail 6),
     write_res = Fail 32, poll_res = (\<lambda>i. Done 0), read_res = (\<lambda>j. Fail 11),
     close_res = Done (), remove_res = 0, ext_interrupt = (\<lambda>i. False)\<rparr>"

definition world0 :: world where
  "world0 = \<lparr>errno = 0, trace = []\<rparr>"

text \<open>
  \<open>idle_reader\<close> opens its pipe and never sees it readable; in \<open>interrupted_reader\<close>
  another thread's \<^verbatim>\<open>interrupt()\<close> is visible from the third load on. For
  \<open>late_listener\<close> and \<open>whole_writer m\<close> the third open succeeds; the first then fails
  to write (\<^verbatim>\<open>EPIPE = 32\<close>), the second has \<open>m\<close> bytes taken. \<open>short_writer\<close> is a
  FIFO of the default Linux capacity that takes 65536 bytes of a longer message.
  \<open>reader_of cs fin\<close> is readable at the second poll and delivers the chunks \<open>cs\<close>, then
  \<open>fin\<close>. \<open>signalled_reader\<close> is the reader of \<^verbatim>\<open>examples/Reader.cpp\<close> without a
  writer: nothing is ever readable, the third poll is cut short by a signal
  (\<^verbatim>\<open>EINTR = 4\<close>), and a read finds the end of the stream. The stores hold an
  interrupted pipe at address 1 and a pipe that was not interrupted at address 2, beside
  default objects.
\<close>

definition two_pipes :: "addr \<Rightarrow> NamedPipe" where
  "two_pipes = (\<lambda>a. NamedPipe_default)
     (1 := \<lparr>m_pipePath = ''ioTestPipe'', m_break = True\<rparr>,
      2 := \<lparr>m_pipePath = ''metaTestPipe'', m_break = False\<rparr>)"

definition two_pipes_win :: "addr \<Rightarrow> NamedPipeW" where
  "two_pipes_win = (\<lambda>a. \<lparr>m_pipePath = [], m_break = False, m_handle = - 1\<rparr>)
     (1 := \<lparr>m_pipePath = ''ioTestPipe'', m_break = True, m_handle = 3\<rparr>,
      2 := \<lparr>m_pipePath = ''metaTestPipe'', m_break = False, m_handle = 4\<rparr>)"

definition idle_reader :: env where
  "idle_reader = quiet_env\<lparr>open_res := (\<lambda>i. Done 3)\<rparr>"

definition interrupted_reader :: env where
  "interrupted_reader = quiet_env\<lparr>open_res := (\<lambda>i. Done 3), ext_interrupt := (\<lambda>i. 2 \<le> i)\<rparr>"

definition signalled_reader :: env where
  "signalled_reader = quiet_env\<lparr>open_res := (\<lambda>i. Done 3),
     poll_res := (\<lambda>i. if i = 2 then Fail 4 else Done 0), read_res := (\<lambda>j. Done [])\<rparr>"

definition late_listener :: env where
  "late_listener = quiet_env\<lparr>open_res := (\<lambda>i. if i < 2 then Fail 6 else Done 4)\<rparr>"

definition whole_writer :: "nat \<Rightarrow> env" where
  "whole_writer m = quiet_env\<lparr>open_res := (\<lambda>i. if i < 2 then Fail 6 else Done 4),
     write_res := Done m\<rparr>"

definition short_writer :: env where
  "short_writer = quiet_env\<lparr>open_res := (\<lambda>i. Done 4), write_res := Done 65536\<rparr>"

definition reader_of :: "byte list list \<Rightarrow> byte list sysres \<Rightarrow> env" where
  "reader_of cs fin = quiet_env\<lparr>open_res := (\<lambda>i. Done 3),
     poll_res := (\<lambda>i. if i < 1 then Done 0 else Done 1),
     read_res := (\<lambda>j. if j < length cs then Done (cs ! j) else fin)\<rparr>"

section \<open>Basic facts\<close>

lemma emit_simps [simp]:
  "trace (emit e w) = trace w @ [e]" "errno (emit e w) = errno w"
  by (simp_all add: emit_def)

lemma NamedPipe_of_simps [simp]:
  "m_pipePath (NamedPipe_of p) = p" "m_break (NamedPipe_of p) = False"
  by (simp_all add: NamedPipe_of_def)

lemma create_ok:
  "fst (create os p w) = Inr pipe \<Longrightarrow> pipe = NamedPipe_of p"
  by (auto simp: create_def Let_def split: prod.splits if_splits)

lemma interrupt_funpow:
  "(interrupt ^^ Suc n) (this, w) =
     (this\<lparr>m_break := True\<rparr>, w\<lparr>trace := trace w @ replicate (Suc n) (StoreBreak True)\<rparr>)"
proof (induction n)
  case 0
  show ?case by (simp add: interrupt_def emit_def)
next
  case (Suc n)
  have "(interrupt ^^ Suc (Suc n)) (this, w) = interrupt ((interrupt ^^ Suc n) (this, w))"
    by simp
  also have "\<dots> = (this\<lparr>m_break := True\<rparr>,
      w\<lparr>trace := trace w @ replicate (Suc (Suc n)) (StoreBreak True)\<rparr>)"
    unfolding Suc.IH by (simp add: interrupt_def emit_def replicate_append_same)
  finally show ?case .
qed

lemma destroy_valid:
  "m_pipePath this \<noteq> [] \<Longrightarrow>
   destroy os (this, w) =
     (this\<lparr>m_break := True, m_pipePath := []\<rparr>,
      (if remove_res os = 0 then w else w\<lparr>errno := remove_res os\<rparr>)
        \<lparr>trace := trace w @ [StoreBreak True, FsRemove (m_pipePath this)]
           @ (if remove_res os = 0 then [] else [CerrCode ''Failed at deleting pipe-object: '' (remove_res os)])\<rparr>)"
  by (simp add: destroy_def fs_remove_def emit_def Let_def)

lemma destroy_invalid:
  "m_pipePath this = [] \<Longrightarrow>
   destroy os (this, w) = (this\<lparr>m_break := True\<rparr>, emit (StoreBreak True) w)"
  by (simp add: destroy_def Let_def)

lemma destroy_again:
  "m_pipePath this = [] \<Longrightarrow> m_break this \<Longrightarrow>
   (destroy os ^^ n) (this, w) = (this, w\<lparr>trace := trace w @ replicate n (StoreBreak True)\<rparr>)"
proof (induction n)
  case 0
  show ?case by simp
next
  case (Suc n)
  then show ?case
    by (simp add: destroy_invalid emit_def replicate_append_same)
qed

section \<open>The retry loop of write\<close>

lemma retry_events_Suc:
  "SysOpen p O_WRONLY_NONBLOCK # SleepFor PIPE_WRITE_WAIT_INTERVAL # retry_events p k
     = retry_events p (Suc k)"
  by (simp add: retry_events_def)

lemma no_write_in_retry [simp]: "filter is_write (retry_events p k) = []"
  by (induction k) (simp_all add: retry_events_def)

lemma opens_in_retry [simp]: "length (filter is_open (retry_events p k)) = Suc k"
  by (induction k) (simp_all add: retry_events_def)

lemma attempts_less: "k < attempts timeout \<longleftrightarrow> int k < max 1 timeout"
  by (auto simp: attempts_def)

lemma attempts_ceil_div:
  "attempts timeout = nat (max 1 (ceil_div timeout PIPE_WAIT_INTERVAL))"
  "attempts timeout = nat (max 1 (ceil_div timeout PIPE_WRITE_WAIT_INTERVAL))"
  by (simp_all add: attempts_def ceil_div_def PIPE_WAIT_INTERVAL_def PIPE_WRITE_WAIT_INTERVAL_def)

lemma sys_open_Fail:
  "open_res os i = Fail e \<Longrightarrow>
   sys_open os i p fl w = (- 1, w\<lparr>trace := trace w @ [SysOpen p fl], errno := e\<rparr>)"
  by (simp add: sys_open_def sys_ret_def emit_def)

lemma sys_open_Done:
  "open_res os i = Done fd \<Longrightarrow>
   sys_open os i p fl w = (int fd, w\<lparr>trace := trace w @ [SysOpen p fl]\<rparr>)"
  by (simp add: sys_open_def sys_ret_def emit_def)

lemma open_retry_succeeds:
  "\<lbrakk>\<forall>j<k. open_fails os (i + j); open_res os (i + k) = Done fd; int k < max 1 timeout\<rbrakk>
   \<Longrightarrow> fst (open_retry os p timeout i w) = Inr (int fd)
     \<and> fst (snd (open_retry os p timeout i w)) = timeout - int k * PIPE_WRITE_WAIT_INTERVAL
     \<and> trace (snd (snd (open_retry os p timeout i w))) = trace w @ retry_events p k"
proof (induction k arbitrary: timeout i w)
  case 0
  then show ?case
    by (subst (1 2 3) open_retry.simps) (simp add: sys_open_Done retry_events_def)
next
  case (Suc k)
  from Suc.prems(1) have "open_fails os (i + 0)" by blast
  then obtain e where e: "open_res os i = Fail e"
    by (auto simp: open_fails_def split: sysres.splits)
  from Suc.prems(3) have t: "timeout > PIPE_WRITE_WAIT_INTERVAL"
    by (simp add: PIPE_WRITE_WAIT_INTERVAL_def)
  have a: "\<forall>j<k. open_fails os (Suc i + j)"
    using Suc.prems(1) by (metis Suc_less_eq add_Suc_shift)
  have b: "open_res os (Suc i + k) = Done fd" using Suc.prems(2) by simp
  have c: "int k < max 1 (timeout - PIPE_WRITE_WAIT_INTERVAL)"
    using Suc.prems(3) by (simp add: PIPE_WRITE_WAIT_INTERVAL_def)
  note IH = Suc.IH [OF a b c]
  show ?case
    by (subst (1 2 3) open_retry.simps)
       (simp add: sys_open_Fail [OF e] t IH sleep_for_def algebra_simps
          flip: retry_events_Suc)
qed

lemma open_retry_times_out_aux:
  "\<lbrakk>attempts timeout = Suc m; \<forall>j<Suc m. open_fails os (i + j)\<rbrakk>
   \<Longrightarrow> fst (open_retry os p timeout i w) = Inl TimeoutException
     \<and> fst (snd (open_retry os p timeout i w)) = min 1 timeout
     \<and> trace (snd (snd (open_retry os p timeout i w))) = trace w @ retry_events p m"
proof (induction m arbitrary: timeout i w)
  case 0
  from "0.prems"(2) have "open_fails os (i + 0)" by blast
  then obtain e where e: "open_res os i = Fail e"
    by (auto simp: open_fails_def split: sysres.splits)
  from "0.prems"(1) have "\<not> timeout > PIPE_WRITE_WAIT_INTERVAL"
    by (simp add: attempts_def PIPE_WRITE_WAIT_INTERVAL_def)
  then show ?case
    by (subst (1 2 3) open_retry.simps)
       (simp add: sys_open_Fail [OF e] retry_events_def PIPE_WRITE_WAIT_INTERVAL_def)
next
  case (Suc m)
  from Suc.prems(2) have "open_fails os (i + 0)" by blast
  then obtain e where e: "open_res os i = Fail e"
    by (auto simp: open_fails_def split: sysres.splits)
  from Suc.prems(1) have t: "timeout > PIPE_WRITE_WAIT_INTERVAL"
    by (simp add: attempts_def PIPE_WRITE_WAIT_INTERVAL_def)
  have a: "attempts (timeout - PIPE_WRITE_WAIT_INTERVAL) = Suc m"
    using Suc.prems(1) by (simp add: attempts_def PIPE_WRITE_WAIT_INTERVAL_def)
  have b: "\<forall>j<Suc m. open_fails os (Suc i + j)"
    using Suc.prems(2) by (metis Suc_less_eq add_Suc_shift)
  have m: "min 1 (timeout - PIPE_WRITE_WAIT_INTERVAL) = min 1 timeout"
    using t by (simp add: PIPE_WRITE_WAIT_INTERVAL_def)
  note IH = Suc.IH [OF a b]
  show ?case
    by (subst (1 2 3) open_retry.simps)
       (simp add: sys_open_Fail [OF e] t IH sleep_for_def m flip: retry_events_Suc)
qed

lemma open_retry_times_out:
  assumes "\<forall>j<attempts timeout. open_fails os (i + j)"
  shows "fst (open_retry os p timeout i w) = Inl TimeoutException
     \<and> fst (snd (open_retry os p timeout i w)) = min 1 timeout
     \<and> trace (snd (snd (open_retry os p timeout i w)))
         = trace w @ retry_events p (attempts timeout - 1)"
proof -
  have "0 < attempts timeout" by (simp add: attempts_def)
  then obtain m where m: "attempts timeout = Suc m" by (cases "attempts timeout") auto
  show ?thesis using open_retry_times_out_aux [OF m] assms m by simp
qed

lemma open_retry_budget:
  "\<exists>k. int k < max 1 timeout
     \<and> fst (snd (open_retry os p timeout i w)) = timeout - int k * PIPE_WRITE_WAIT_INTERVAL
     \<and> trace (snd (snd (open_retry os p timeout i w))) = trace w @ retry_events p k
     \<and> (fst (open_retry os p timeout i w) = Inl TimeoutException
          \<or> (\<exists>fd. fst (open_retry os p timeout i w) = Inr (int fd)))"
proof (cases "\<forall>j<attempts timeout. open_fails os (i + j)")
  case True
  have "int (attempts timeout - 1) < max 1 timeout" by (simp add: attempts_def)
  moreover have "min 1 timeout = timeout - int (attempts timeout - 1) * PIPE_WRITE_WAIT_INTERVAL"
    by (simp add: attempts_def PIPE_WRITE_WAIT_INTERVAL_def min_def max_def)
  ultimately show ?thesis using open_retry_times_out [OF True, of p w] by metis
next
  case False
  then have ex: "\<exists>j. j < attempts timeout \<and> \<not> open_fails os (i + j)" by blast
  define k where "k = (LEAST j. j < attempts timeout \<and> \<not> open_fails os (i + j))"
  have k: "k < attempts timeout" "\<not> open_fails os (i + k)"
    using LeastI_ex [OF ex] by (simp_all add: k_def)
  have before: "\<forall>j<k. open_fails os (i + j)"
    using not_less_Least [of _ "\<lambda>j. j < attempts timeout \<and> \<not> open_fails os (i + j)"] k(1)
    unfolding k_def [symmetric] by (metis order.strict_trans)
  from k(2) obtain fd where fd: "open_res os (i + k) = Done fd"
    by (auto simp: open_fails_def split: sysres.splits)
  from k(1) have kk: "int k < max 1 timeout" by (simp add: attempts_def)
  show ?thesis using open_retry_succeeds [OF before fd kk, of p w] kk by blast
qed

section \<open>The wait loop of read_blocking\<close>

lemma polls_in_polls [simp]: "length (filter is_poll (polls h n)) = n"
  by (simp add: polls_def)

lemma sys_poll_idle:
  "poll_idle os i \<Longrightarrow>
   \<exists>rc rv. sys_poll os i h revents tmo w = ((rc, rv), emit (SysPoll h tmo) w)
      \<and> rc \<noteq> - 1 \<and> rv AND POLLIN os = 0"
  by (auto simp: poll_idle_def sys_poll_def split: sysres.splits)

lemma sys_poll_not_idle:
  "\<not> poll_idle os i \<Longrightarrow>
   \<exists>rc rv w1. sys_poll os i h revents tmo w = ((rc, rv), w1)
      \<and> trace w1 = trace w @ [SysPoll h tmo] \<and> \<not> (rc \<noteq> - 1 \<and> \<not> (rv AND POLLIN os \<noteq> 0))"
  by (auto simp: poll_idle_def sys_poll_def split: sysres.splits)

lemma wait_readable_exit:
  assumes "\<not> poll_idle os i"
  shows "fst (wait_readable os this h revents timeout i w) = Inr ()
     \<and> fst (snd (wait_readable os this h revents timeout i w)) = timeout
     \<and> trace (snd (snd (wait_readable os this h revents timeout i w))) = trace w @ polls h 1"
proof -
  from sys_poll_not_idle [OF assms, of h revents PIPE_WAIT_INTERVAL w]
  obtain rc rv w1 where
    "sys_poll os i h revents PIPE_WAIT_INTERVAL w = ((rc, rv), w1)"
    "trace w1 = trace w @ [SysPoll h PIPE_WAIT_INTERVAL]"
    "\<not> (rc \<noteq> - 1 \<and> \<not> (rv AND POLLIN os \<noteq> 0))" by blast
  then show ?thesis
    by (subst (1 2 3) wait_readable.simps) (auto simp: polls_def)
qed

lemma wait_readable_interrupt:
  assumes "poll_idle os i" "load_break os this i"
  shows "wait_readable os this h revents timeout i w
     = (Inl InterruptException, timeout, emit (SysPoll h PIPE_WAIT_INTERVAL) w)"
proof -
  from sys_poll_idle [OF assms(1), of h revents PIPE_WAIT_INTERVAL w]
  obtain rc rv where
    "sys_poll os i h revents PIPE_WAIT_INTERVAL w = ((rc, rv), emit (SysPoll h PIPE_WAIT_INTERVAL) w)"
    "rc \<noteq> - 1" "rv AND POLLIN os = 0" by blast
  with assms(2) show ?thesis
    by (subst wait_readable.simps) simp
qed

lemma wait_readable_timeout:
  assumes "poll_idle os i" "\<not> load_break os this i" "\<not> timeout > PIPE_WAIT_INTERVAL"
  shows "wait_readable os this h revents timeout i w
     = (Inl TimeoutException, timeout, emit (SysPoll h PIPE_WAIT_INTERVAL) w)"
proof -
  from sys_poll_idle [OF assms(1), of h revents PIPE_WAIT_INTERVAL w]
  obtain rc rv where
    "sys_poll os i h revents PIPE_WAIT_INTERVAL w = ((rc, rv), emit (SysPoll h PIPE_WAIT_INTERVAL) w)"
    "rc \<noteq> - 1" "rv AND POLLIN os = 0" by blast
  with assms(2,3) show ?thesis
    by (subst wait_readable.simps) simp
qed

lemma wait_readable_skip:
  "\<lbrakk>\<forall>j<k. poll_idle os (i + j) \<and> \<not> load_break os this (i + j); int k < max 1 timeout\<rbrakk>
   \<Longrightarrow> \<exists>rv. wait_readable os this h revents timeout i w
         = wait_readable os this h rv (timeout - int k * PIPE_WAIT_INTERVAL) (i + k)
             (w\<lparr>trace := trace w @ polls h k\<rparr>)"
proof (induction k arbitrary: revents timeout i w)
  case 0
  show ?case by (auto simp: polls_def intro: exI [of _ revents])
next
  case (Suc k)
  from Suc.prems(1) have i0: "poll_idle os i" "\<not> load_break os this i" by force+
  from Suc.prems(2) have t: "timeout > PIPE_WAIT_INTERVAL"
    by (simp add: PIPE_WAIT_INTERVAL_def)
  from sys_poll_idle [OF i0(1), of h revents PIPE_WAIT_INTERVAL w]
  obtain rc rv where p:
    "sys_poll os i h revents PIPE_WAIT_INTERVAL w = ((rc, rv), emit (SysPoll h PIPE_WAIT_INTERVAL) w)"
    "rc \<noteq> - 1" "rv AND POLLIN os = 0" by blast
  have step: "wait_readable os this h revents timeout i w
      = wait_readable os this h rv (timeout - PIPE_WAIT_INTERVAL) (Suc i)
          (emit (SysPoll h PIPE_WAIT_INTERVAL) w)"
    using p i0(2) t by (subst wait_readable.simps) simp
  have a: "\<forall>j<k. poll_idle os (Suc i + j) \<and> \<not> load_break os this (Suc i + j)"
    using Suc.prems(1) by (metis Suc_less_eq add_Suc_shift)
  have c: "int k < max 1 (timeout - PIPE_WAIT_INTERVAL)"
    using Suc.prems(2) by (simp add: PIPE_WAIT_INTERVAL_def)
  from Suc.IH [OF a c, of rv "emit (SysPoll h PIPE_WAIT_INTERVAL) w"]
  obtain rv' where
    "wait_readable os this h rv (timeout - PIPE_WAIT_INTERVAL) (Suc i)
          (emit (SysPoll h PIPE_WAIT_INTERVAL) w)
      = wait_readable os this h rv' (timeout - PIPE_WAIT_INTERVAL - int k * PIPE_WAIT_INTERVAL)
          (Suc i + k) (emit (SysPoll h PIPE_WAIT_INTERVAL) w
             \<lparr>trace := trace (emit (SysPoll h PIPE_WAIT_INTERVAL) w) @ polls h k\<rparr>)" by blast
  then show ?case
    unfolding step
    by (auto simp: emit_def polls_def algebra_simps replicate_append_same intro!: exI [of _ rv'])
qed

lemma wait_readable_ready:
  assumes "\<forall>j<k. poll_idle os (i + j) \<and> \<not> load_break os this (i + j)"
    and "\<not> poll_idle os (i + k)" and "int k < max 1 timeout"
  shows "fst (wait_readable os this h revents timeout i w) = Inr ()
     \<and> fst (snd (wait_readable os this h revents timeout i w))
         = timeout - int k * PIPE_WAIT_INTERVAL
     \<and> trace (snd (snd (wait_readable os this h revents timeout i w)))
         = trace w @ polls h (Suc k)"
proof -
  from wait_readable_skip [OF assms(1,3), of h revents w] obtain rv where
    "wait_readable os this h revents timeout i w
       = wait_readable os this h rv (timeout - int k * PIPE_WAIT_INTERVAL) (i + k)
           (w\<lparr>trace := trace w @ polls h k\<rparr>)" by blast
  then show ?thesis
    using wait_readable_exit [OF assms(2), of this h rv "timeout - int k * PIPE_WAIT_INTERVAL"
        "w\<lparr>trace := trace w @ polls h k\<rparr>"]
    by (simp add: polls_def replicate_append_same)
qed

lemma wait_readable_interrupted:
  assumes "\<forall>j<k. poll_idle os (i + j) \<and> \<not> load_break os this (i + j)"
    and "poll_idle os (i + k)" and "load_break os this (i + k)" and "int k < max 1 timeout"
  shows "fst (wait_readable os this h revents timeout i w) = Inl InterruptException
     \<and> fst (snd (wait_readable os this h revents timeout i w))
         = timeout - int k * PIPE_WAIT_INTERVAL
     \<and> trace (snd (snd (wait_readable os this h revents timeout i w)))
         = trace w @ polls h (Suc k)
     \<and> errno (snd (snd (wait_readable os this h revents timeout i w))) = errno w"
proof -
  from wait_readable_skip [OF assms(1,4), of h revents w] obtain rv where
    "wait_readable os this h revents timeout i w
       = wait_readable os this h rv (timeout - int k * PIPE_WAIT_INTERVAL) (i + k)
           (w\<lparr>trace := trace w @ polls h k\<rparr>)" by blast
  then show ?thesis
    by (simp add: wait_readable_interrupt [OF assms(2,3)] polls_def replicate_append_same)
qed

lemma wait_readable_times_out:
  assumes "\<forall>j<attempts timeout. poll_idle os (i + j) \<and> \<not> load_break os this (i + j)"
  shows "fst (wait_readable os this h revents timeout i w) = Inl TimeoutException
     \<and> fst (snd (wait_readable os this h revents timeout i w)) = min 1 timeout
     \<and> trace (snd (snd (wait_readable os this h revents timeout i w)))
         = trace w @ polls h (attempts timeout)
     \<and> errno (snd (snd (wait_readable os this h revents timeout i w))) = errno w"
proof -
  define k where "k = attempts timeout - 1"
  have k: "attempts timeout = Suc k" "int k < max 1 timeout"
    by (simp_all add: k_def attempts_def)
  have left: "timeout - int k * PIPE_WAIT_INTERVAL = min 1 timeout"
    by (simp add: k_def attempts_def PIPE_WAIT_INTERVAL_def min_def max_def)
  from assms k(1) have before: "\<forall>j<k. poll_idle os (i + j) \<and> \<not> load_break os this (i + j)"
    by simp
  from assms k(1) have last: "poll_idle os (i + k)" "\<not> load_break os this (i + k)"
    by simp_all
  have out: "\<not> min 1 timeout > PIPE_WAIT_INTERVAL" by (simp add: PIPE_WAIT_INTERVAL_def)
  from wait_readable_skip [OF before k(2), of h revents w] obtain rv where
    "wait_readable os this h revents timeout i w
       = wait_readable os this h rv (min 1 timeout) (i + k)
           (w\<lparr>trace := trace w @ polls h k\<rparr>)" unfolding left by blast
  then show ?thesis
    by (simp add: wait_readable_timeout [OF last out] polls_def replicate_append_same k(1))
qed

lemma wait_readable_budget:
  "\<exists>k. int k < max 1 timeout
     \<and> fst (snd (wait_readable os this h revents timeout i w))
         = timeout - int k * PIPE_WAIT_INTERVAL
     \<and> trace (snd (snd (wait_readable os this h revents timeout i w)))
         = trace w @ polls h (Suc k)
     \<and> (fst (wait_readable os this h revents timeout i w) = Inl TimeoutException
          \<or> fst (wait_readable os this h revents timeout i w) = Inl InterruptException
          \<or> fst (wait_readable os this h revents timeout i w) = Inr ())"
proof (cases "\<forall>j<attempts timeout. poll_idle os (i + j) \<and> \<not> load_break os this (i + j)")
  case True
  have "int (attempts timeout - 1) < max 1 timeout" by (simp add: attempts_def)
  moreover have "min 1 timeout = timeout - int (attempts timeout - 1) * PIPE_WAIT_INTERVAL"
    by (simp add: attempts_def PIPE_WAIT_INTERVAL_def min_def max_def)
  moreover have "attempts timeout = Suc (attempts timeout - 1)" by (simp add: attempts_def)
  ultimately show ?thesis using wait_readable_times_out [OF True, of h revents w] by metis
next
  case False
  let ?P = "\<lambda>j. j < attempts timeout \<and> \<not> (poll_idle os (i + j) \<and> \<not> load_break os this (i + j))"
  from False have ex: "\<exists>j. ?P j" by blast
  define k where "k = (LEAST j. ?P j)"
  have k: "k < attempts timeout" "\<not> (poll_idle os (i + k) \<and> \<not> load_break os this (i + k))"
    using LeastI_ex [OF ex] by (simp_all add: k_def)
  have before: "\<forall>j<k. poll_idle os (i + j) \<and> \<not> load_break os this (i + j)"
    using not_less_Least [of _ ?P] k(1) unfolding k_def [symmetric]
    by (metis order.strict_trans)
  from k(1) have kk: "int k < max 1 timeout" by (simp add: attempts_def)
  show ?thesis
  proof (cases "poll_idle os (i + k)")
    case True
    with k(2) have "load_break os this (i + k)" by simp
    from wait_readable_interrupted [OF before True this kk, of h revents w] kk
    show ?thesis by blast
  next
    case False
    from wait_readable_ready [OF before False kk, of h revents w] kk
    show ?thesis by blast
  qed
qed

section \<open>The read loop and the whole calls\<close>

lemma trace_close_guard:
  "trace (close_guard os (int fd) w) = trace w @ close_events os (int fd)"
  by (simp add: close_guard_def sys_close_def sys_ret_def close_events_def
      split: sysres.splits)

lemma no_write_in_close [simp]: "filter is_write (close_events os h) = []"
  by (simp add: close_events_def split: sysres.splits)

lemma drain_last:
  assumes "read_res os b = fin" "ends_message fin"
  shows "\<exists>w'. drain os h msg b w
           = Some ((case fin of Fail e \<Rightarrow> - 1 | Done bs \<Rightarrow> 0, msg), w')
         \<and> trace w' = trace w @ reads h 1
         \<and> errno w' = (case fin of Fail e \<Rightarrow> e | Done bs \<Rightarrow> errno w)"
  using assms
  by (subst drain.simps) (cases fin; simp add: sys_read_def reads_def)

lemma drain_chunks:
  "\<lbrakk>serves os b cs; read_res os (b + length cs) = fin; ends_message fin\<rbrakk>
   \<Longrightarrow> \<exists>w'. drain os h msg b w
           = Some ((case fin of Fail e \<Rightarrow> - 1 | Done bs \<Rightarrow> 0, msg @ concat cs), w')
         \<and> trace w' = trace w @ reads h (Suc (length cs))
         \<and> errno w' = (case fin of Fail e \<Rightarrow> e | Done bs \<Rightarrow> errno w)"
proof (induction cs arbitrary: b msg w)
  case Nil
  then show ?case using drain_last [of os b fin h msg w] by simp
next
  case (Cons c cs)
  from Cons.prems(1) have c: "read_res os b = Done c" "c \<noteq> []" "length c \<le> PIPE_BUFFER_SIZE"
    and rest: "serves os (Suc b) cs" by simp_all
  from Cons.prems(2) have fin: "read_res os (Suc b + length cs) = fin" by simp
  have step: "drain os h msg b w
      = drain os h (msg @ c) (Suc b) (emit (SysRead h PIPE_BUFFER_SIZE) w)"
    using c by (subst drain.simps) (simp add: sys_read_def)
  from Cons.IH [OF rest fin Cons.prems(3), of "msg @ c" "emit (SysRead h PIPE_BUFFER_SIZE) w"]
  show ?case unfolding step by (auto simp: reads_def split: sysres.splits)
qed

lemma serves_replicate:
  "\<lbrakk>\<forall>j<n. read_res os (b + j) = Done c; c \<noteq> []; length c \<le> PIPE_BUFFER_SIZE\<rbrakk>
   \<Longrightarrow> serves os b (replicate n c)"
proof (induction n arbitrary: b)
  case 0
  show ?case by simp
next
  case (Suc n)
  from Suc.prems(1) have "read_res os (b + 0) = Done c" by blast
  moreover have "\<forall>j<n. read_res os (Suc b + j) = Done c"
    using Suc.prems(1) by (metis Suc_less_eq add_Suc_shift)
  ultimately show ?case using Suc.IH [of "Suc b"] Suc.prems(2,3) by simp
qed

lemma concat_replicate_replicate:
  "concat (replicate n (replicate m x)) = replicate (n * m) x"
  by (induction n) (simp_all add: replicate_add)

lemma read_blocking_reads:
  assumes op: "open_res os 0 = Done fd"
    and idle: "\<forall>j<k. poll_idle os j \<and> \<not> load_break os this j"
    and ready: "\<not> poll_idle os k" and k: "int k < max 1 timeout"
    and cs: "serves os 0 cs" and fin: "read_res os (length cs) = fin" "ends_message fin"
  shows "\<exists>w'. read_blocking os this timeout w
           = Some ((case fin of
                      Fail e \<Rightarrow> if e = EAGAIN os then Inr (concat cs)
                                else Inl (PipeException e ''Read'')
                    | Done bs \<Rightarrow> Inr (concat cs)), w')
         \<and> trace w' = trace w @ read_phase os (m_pipePath this) (int fd) (Suc k) (Suc (length cs))"
proof -
  let ?w1 = "w\<lparr>trace := trace w @ [SysOpen (m_pipePath this) O_RDONLY_NONBLOCK]\<rparr>"
  have o: "sys_open os 0 (m_pipePath this) O_RDONLY_NONBLOCK w = (int fd, ?w1)"
    by (rule sys_open_Done [OF op])
  from idle have idle': "\<forall>j<k. poll_idle os (0 + j) \<and> \<not> load_break os this (0 + j)" by simp
  from ready have ready': "\<not> poll_idle os (0 + k)" by simp
  obtain r t w2 where wr: "wait_readable os this (int fd) (- 1) timeout 0 ?w1 = (r, t, w2)"
    by (cases "wait_readable os this (int fd) (- 1) timeout 0 ?w1") auto
  from wait_readable_ready [OF idle' ready' k, of "int fd" "- 1" ?w1] wr
  have r: "r = Inr ()" and tr2: "trace w2 = trace ?w1 @ polls (int fd) (Suc k)" by simp_all
  from fin(1) have fin0: "read_res os (0 + length cs) = fin" by simp
  from drain_chunks [OF cs fin0 fin(2), of "int fd" "[]" w2]
  obtain w3 where d: "drain os (int fd) [] 0 w2
        = Some ((case fin of Fail e \<Rightarrow> - 1 | Done bs \<Rightarrow> 0, concat cs), w3)"
    and tr3: "trace w3 = trace w2 @ reads (int fd) (Suc (length cs))"
    and e3: "errno w3 = (case fin of Fail e \<Rightarrow> e | Done bs \<Rightarrow> errno w2)" by auto
  show ?thesis
    unfolding read_blocking_def o
    by (cases fin)
       (simp_all add: wr r d e3 tr3 tr2 trace_close_guard read_phase_def)
qed




lemma write_static_times_out:
  assumes "\<forall>j<attempts timeout. open_fails os j"
  shows "fst (write_static os p (Some bytes) n timeout w) = Inl TimeoutException
     \<and> trace (snd (write_static os p (Some bytes) n timeout w))
         = trace w @ retry_events p (attempts timeout - 1)"
proof -
  from assms have a: "\<forall>j<attempts timeout. open_fails os (0 + j)" by simp
  obtain r t w1 where o: "open_retry os p timeout 0 w = (r, t, w1)"
    by (cases "open_retry os p timeout 0 w") auto
  with open_retry_times_out [OF a, of p w] show ?thesis
    by (simp add: write_static_def)
qed

lemma write_static_opened:
  assumes "\<forall>j<k. open_fails os j" "open_res os k = Done fd" "int k < max 1 timeout"
  shows "fst (write_static os p (Some bytes) n timeout w)
           = (case write_res os of Fail e \<Rightarrow> Inl (PipeException e ''Write'') | Done m \<Rightarrow> Inr ())
     \<and> trace (snd (write_static os p (Some bytes) n timeout w))
         = trace w @ retry_events p k @ SysWrite (int fd) (take n bytes) # close_events os (int fd)"
proof -
  from assms have a: "\<forall>j<k. open_fails os (0 + j)" "open_res os (0 + k) = Done fd" by simp_all
  obtain r t w1 where o: "open_retry os p timeout 0 w = (r, t, w1)"
    by (cases "open_retry os p timeout 0 w") auto
  with open_retry_succeeds [OF a assms(3), of p w]
  have r: "r = Inr (int fd)" "trace w1 = trace w @ retry_events p k" by simp_all
  show ?thesis
    by (cases "write_res os")
       (simp_all add: write_static_def o r sys_write_def sys_ret_def trace_close_guard)
qed

section \<open>The example environments\<close>

lemma open_fails_quiet [simp]: "open_fails quiet_env j"
  by (simp add: open_fails_def quiet_env_def)

lemma late_listener_simps [simp]:
  "open_fails late_listener j = (j < 2)" "open_res late_listener 2 = Done 4"
  "write_res late_listener = Fail 32" "close_res late_listener = Done ()"
  by (simp_all add: open_fails_def late_listener_def quiet_env_def)

lemma whole_writer_simps [simp]:
  "open_fails (whole_writer m) j = (j < 2)" "open_res (whole_writer m) 2 = Done 4"
  "write_res (whole_writer m) = Done m"
  by (simp_all add: open_fails_def whole_writer_def quiet_env_def)

lemma reader_of_simps [simp]:
  "open_res (reader_of cs fin) 0 = Done 3"
  "poll_idle (reader_of cs fin) j = (j < 1)"
  "load_break (reader_of cs fin) (NamedPipe_of p) j = False"
  "EAGAIN (reader_of cs fin) = 11"
  "read_res (reader_of cs fin) j = (if j < length cs then Done (cs ! j) else fin)"
  by (simp_all add: reader_of_def quiet_env_def poll_idle_def load_break_def NamedPipe_of_def)

lemma idle_reader_simps [simp]:
  "open_res idle_reader 0 = Done 3" "poll_idle idle_reader j"
  "load_break idle_reader (NamedPipe_of p) j = False"
  by (simp_all add: idle_reader_def quiet_env_def poll_idle_def load_break_def NamedPipe_of_def)

lemma signalled_reader_simps [simp]:
  "open_res signalled_reader 0 = Done 3" "poll_idle signalled_reader j = (j \<noteq> 2)"
  "poll_res signalled_reader 2 = Fail 4"
  "load_break signalled_reader (NamedPipe_of p) j = False"
  "read_res signalled_reader j = Done []"
  by (simp_all add: signalled_reader_def quiet_env_def poll_idle_def load_break_def
      NamedPipe_of_def)

lemma interrupted_reader_simps [simp]:
  "open_res interrupted_reader 0 = Done 3" "poll_idle interrupted_reader j"
  "load_break interrupted_reader (NamedPipe_of p) j = (2 \<le> j)"
  by (simp_all add: interrupted_reader_def quiet_env_def poll_idle_def load_break_def
      NamedPipe_of_def)

section \<open>Round trip\<close>

text \<open>
  C1, as stated, fails for a message that the FIFO does not take whole. On a created pipe,
  \<^verbatim>\<open>write\<close> of 70000 bytes returns normally although \<^verbatim>\<open>::write\<close> took 65536 of
  them, and the reader, which is handed exactly the bytes taken, in chunks of a buffer's
  size, returns those 65536 bytes: not the message.
\<close>

theorem roundtrip_counterexample:
  "fst (create quiet_env ''ioTestPipe'' world0) = Inr (NamedPipe_of ''ioTestPipe'')
   \<and> fst (write_static short_writer ''ioTestPipe'' (Some (replicate 70000 42)) 70000 1000 world0)
       = Inr ()
   \<and> concat (replicate 256 (replicate 256 42)) = accepted short_writer (replicate 70000 42)
   \<and> map_option fst (read_blocking (reader_of (replicate 256 (replicate 256 42)) (Fail 11))
        (NamedPipe_of ''ioTestPipe'') 5000 world0) = Some (Inr (replicate 65536 42))
   \<and> replicate 65536 (42 :: byte) \<noteq> replicate 70000 42"
proof -
  let ?cs = "replicate 256 (replicate 256 (42 :: byte))"
  let ?r = "reader_of ?cs (Fail 11)"
  have c: "fst (create quiet_env ''ioTestPipe'' world0) = Inr (NamedPipe_of ''ioTestPipe'')"
    by (simp add: create_def sys_mkfifo_def sys_ret_def quiet_env_def)
  have o: "\<forall>j<0. open_fails short_writer j" "open_res short_writer 0 = Done 4"
    "int 0 < max 1 1000" "write_res short_writer = Done 65536"
    by (simp_all add: short_writer_def quiet_env_def)
  from write_static_opened [OF o(1,2,3), of "''ioTestPipe''" "replicate 70000 42" 70000 world0]
  have w: "fst (write_static short_writer ''ioTestPipe'' (Some (replicate 70000 42)) 70000 1000
      world0) = Inr ()" by (simp add: o(4))
  have cc: "concat ?cs = replicate 65536 42" by (simp add: concat_replicate_replicate)
  have a: "accepted short_writer (replicate 70000 42) = replicate 65536 42"
    by (simp add: accepted_def o(4))
  have s: "serves ?r 0 ?cs"
    by (rule serves_replicate) (simp_all add: PIPE_BUFFER_SIZE_def)
  have r: "open_res ?r 0 = Done 3"
    "\<forall>j<1. poll_idle ?r j \<and> \<not> load_break ?r (NamedPipe_of ''ioTestPipe'') j"
    "\<not> poll_idle ?r 1" "int 1 < max 1 5000" "read_res ?r (length ?cs) = Fail 11"
    "ends_message (Fail 11)" by simp_all
  from read_blocking_reads [OF r(1,2,3,4) s r(5,6), of world0]
  have rd: "map_option fst (read_blocking ?r (NamedPipe_of ''ioTestPipe'') 5000 world0)
      = Some (Inr (replicate 65536 42))" by (auto simp: cc)
  have ne: "replicate 65536 (42 :: byte) \<noteq> replicate 70000 42"
    by (simp add: replicate_eq_replicate)
  from c w cc a rd ne show ?thesis by simp
qed

text \<open>
  C1, amended. Let the pipe be created at \<open>p\<close>, let the writer's open succeed within
  its budget, and let \<^verbatim>\<open>::write\<close> take the whole message \<open>B\<close> (it returns
  \<open>length B\<close>). Let the reader's open succeed and its poll report the pipe readable within
  the budget, with no interrupt before, and let the reads hand over what the write took, in
  any non-empty chunks of at most a buffer's size, followed by \<^verbatim>\<open>EAGAIN\<close> or by zero
  bytes. Then \<^verbatim>\<open>write(p, B, |B|, tw)\<close> returns normally after one \<^verbatim>\<open>::write\<close> of exactly
  \<open>B\<close>, and \<^verbatim>\<open>read_blocking(tr)\<close> of the created object, which opens the same path,
  returns exactly \<open>B\<close>. \<open>B\<close> is any byte sequence, the empty one and those with all 256
  values included.
\<close>

theorem write_then_read_roundtrip:
  assumes created: "fst (create osc p wc) = Inr pipe"
    and writer: "\<forall>j<kw. open_fails osw j" "open_res osw kw = Done fdw" "kw < attempts tw"
    and whole: "write_res osw = Done (length B)"
    and reader: "open_res osr 0 = Done fdr"
      "\<forall>j<kr. poll_idle osr j \<and> \<not> load_break osr pipe j" "\<not> poll_idle osr kr"
      "kr < attempts tr"
    and fifo: "serves osr 0 cs" "concat cs = accepted osw B"
      "read_res osr (length cs) = Fail (EAGAIN osr) \<or> read_res osr (length cs) = Done []"
  shows "fst (write_static osw p (Some B) (length B) tw w) = Inr ()
     \<and> filter is_write (drop (length (trace w))
          (trace (snd (write_static osw p (Some B) (length B) tw w))))
         = [SysWrite (int fdw) B]
     \<and> map_option fst (read_blocking osr pipe tr w') = Some (Inr B)
     \<and> map_option (trace \<circ> snd) (read_blocking osr pipe tr w')
         = Some (trace w' @ read_phase osr p (int fdr) (Suc kr) (Suc (length cs)))"
proof -
  from created have p: "m_pipePath pipe = p" by (auto dest: create_ok)
  from writer(3) have kw: "int kw < max 1 tw" by (simp add: attempts_less)
  from reader(4) have kr: "int kr < max 1 tr" by (simp add: attempts_less)
  from write_static_opened [OF writer(1,2) kw, of p B "length B" w] whole
  have w: "fst (write_static osw p (Some B) (length B) tw w) = Inr ()"
    "filter is_write (drop (length (trace w))
          (trace (snd (write_static osw p (Some B) (length B) tw w))))
         = [SysWrite (int fdw) B]" by simp_all
  from fifo(2) whole have cs: "concat cs = B" by (simp add: accepted_def)
  from fifo(3) have e: "ends_message (read_res osr (length cs))" by auto
  from read_blocking_reads [OF reader(1,2,3) kr fifo(1) refl e, of w'] fifo(3)
  have "map_option fst (read_blocking osr pipe tr w') = Some (Inr B)
     \<and> map_option (trace \<circ> snd) (read_blocking osr pipe tr w')
         = Some (trace w' @ read_phase osr p (int fdr) (Suc kr) (Suc (length cs)))"
    by (auto simp: cs p)
  with w show ?thesis by simp
qed

text \<open>
  The round trip of the test's message \<open>[0, 1, 2, 255, 254]\<close>, the writer's third open
  succeeding.
\<close>

theorem write_then_read_roundtrip_witness:
  "fst (create quiet_env ''ioTestPipe'' world0) = Inr (NamedPipe_of ''ioTestPipe'')
   \<and> fst (write_static (whole_writer 5) ''ioTestPipe'' (Some [0, 1, 2, 255, 254]) 5 1000 world0)
       = Inr ()
   \<and> map_option fst (read_blocking (reader_of [[0, 1, 2, 255, 254]] (Fail 11))
        (NamedPipe_of ''ioTestPipe'') 5000 world0) = Some (Inr [0, 1, 2, 255, 254])"
proof -
  have c: "fst (create quiet_env ''ioTestPipe'' world0) = Inr (NamedPipe_of ''ioTestPipe'')"
    by (simp add: create_def sys_mkfifo_def sys_ret_def quiet_env_def)
  have len: "length [0, 1, 2, 255, 254 :: byte] = 5" by simp
  show ?thesis
    using c write_then_read_roundtrip [OF c, where osw = "whole_writer 5" and kw = 2
        and fdw = 4 and tw = 1000 and B = "[0, 1, 2, 255, 254]"
        and osr = "reader_of [[0, 1, 2, 255, 254]] (Fail 11)" and fdr = 3 and kr = 1
        and tr = 5000 and cs = "[[0, 1, 2, 255, 254]]" and w = world0 and w' = world0,
        unfolded len]
    by (simp add: attempts_def accepted_def PIPE_BUFFER_SIZE_def)
qed

section \<open>The end of a message\<close>

text \<open>
  C2. When \<^verbatim>\<open>read_blocking\<close> has opened the pipe and left the wait loop, and the reads
  deliver chunks until one read is not positive, then: if that read delivers zero bytes, or
  fails with \<^verbatim>\<open>EAGAIN\<close>, the call returns the bytes read so far and raises nothing; if it
  fails with any other error number \<open>e\<close>, the call raises \<^verbatim>\<open>PipeException(e, "Read")\<close>.
  A failing \<^verbatim>\<open>::read\<close> returns \<open>-1\<close>, so these are all results that are not positive.
\<close>

theorem read_blocking_end_of_message:
  assumes "open_res os 0 = Done fd"
    and "\<forall>j<k. poll_idle os j \<and> \<not> load_break os this j"
    and "\<not> poll_idle os k" and "k < attempts timeout"
    and "serves os 0 cs" and "read_res os (length cs) = fin" and "ends_message fin"
  shows "map_option fst (read_blocking os this timeout w)
     = Some (case fin of
               Done bs \<Rightarrow> Inr (concat cs)
             | Fail e \<Rightarrow> if e = EAGAIN os then Inr (concat cs)
                          else Inl (PipeException e ''Read''))"
proof -
  from assms(4) have k: "int k < max 1 timeout" by (simp add: attempts_less)
  from read_blocking_reads [OF assms(1,2,3) k assms(5,6,7), of w]
  show ?thesis by (auto split: sysres.splits)
qed

text \<open>
  A reader of \<open>[42, 0]\<close> whose last read fails with \<^verbatim>\<open>EAGAIN = 11\<close>, delivers zero
  bytes, or fails with \<^verbatim>\<open>EIO = 5\<close>.
\<close>

theorem read_blocking_end_of_message_witness:
  "map_option fst (read_blocking (reader_of [[42, 0]] (Fail 11)) (NamedPipe_of ''ioTestPipe'')
      5000 world0) = Some (Inr [42, 0])
   \<and> map_option fst (read_blocking (reader_of [[42, 0]] (Done [])) (NamedPipe_of ''ioTestPipe'')
      5000 world0) = Some (Inr [42, 0])
   \<and> map_option fst (read_blocking (reader_of [[42, 0]] (Fail 5)) (NamedPipe_of ''ioTestPipe'')
      5000 world0) = Some (Inl (PipeException 5 ''Read''))"
  using
    read_blocking_end_of_message [where os = "reader_of [[42, 0]] (Fail 11)" and fd = 3
      and k = 1 and this = "NamedPipe_of ''ioTestPipe''" and timeout = 5000
      and cs = "[[42, 0]]" and fin = "Fail 11" and w = world0]
    read_blocking_end_of_message [where os = "reader_of [[42, 0]] (Done [])" and fd = 3
      and k = 1 and this = "NamedPipe_of ''ioTestPipe''" and timeout = 5000
      and cs = "[[42, 0]]" and fin = "Done []" and w = world0]
    read_blocking_end_of_message [where os = "reader_of [[42, 0]] (Fail 5)" and fd = 3
      and k = 1 and this = "NamedPipe_of ''ioTestPipe''" and timeout = 5000
      and cs = "[[42, 0]]" and fin = "Fail 5" and w = world0]
  by (simp add: attempts_def PIPE_BUFFER_SIZE_def)

section \<open>Timeout and interrupt of a read\<close>




section \<open>Timeout and failure of a write\<close>

text \<open>
  C4. For every \<open>timeout\<close> and a message that is not null: if every open the budget
  allows fails, \<^verbatim>\<open>write\<close> raises \<^verbatim>\<open>TimeoutException\<close> after \<open>attempts timeout\<close> opens
  with a sleep of one interval between them, and issues no \<^verbatim>\<open>::write\<close>. If the opens
  fail \<open>k\<close> times and then succeed within the budget, the budget has been decremented by
  \<open>k\<close> intervals, exactly one \<^verbatim>\<open>::write\<close> is issued, with the first \<open>n\<close> bytes of the
  message, the handle is closed, and a failing \<^verbatim>\<open>::write\<close> with error number \<open>e\<close>
  raises \<^verbatim>\<open>PipeException(e, "Write")\<close>.
\<close>

theorem write_retries_until_timeout:
  "((\<forall>j<attempts timeout. open_fails os j) \<longrightarrow>
       fst (write_static os p (Some bytes) n timeout w) = Inl TimeoutException
     \<and> trace (snd (write_static os p (Some bytes) n timeout w))
         = trace w @ retry_events p (attempts timeout - 1)
     \<and> filter is_write (drop (length (trace w))
          (trace (snd (write_static os p (Some bytes) n timeout w)))) = [])
   \<and> ((\<forall>j<k. open_fails os j) \<and> open_res os k = Done fd \<and> k < attempts timeout \<longrightarrow>
       trace (snd (write_static os p (Some bytes) n timeout w))
         = trace w @ retry_events p k @ SysWrite (int fd) (take n bytes) # close_events os (int fd)
     \<and> filter is_write (drop (length (trace w))
          (trace (snd (write_static os p (Some bytes) n timeout w))))
         = [SysWrite (int fd) (take n bytes)]
     \<and> fst (snd (open_retry os p timeout 0 w)) = timeout - int k * PIPE_WRITE_WAIT_INTERVAL
     \<and> (\<forall>e. write_res os = Fail e \<longrightarrow>
           fst (write_static os p (Some bytes) n timeout w) = Inl (PipeException e ''Write'')))"
proof (intro conjI impI)
  assume a: "\<forall>j<attempts timeout. open_fails os j"
  note t = write_static_times_out [OF a, of p bytes n w]
  from t show "fst (write_static os p (Some bytes) n timeout w) = Inl TimeoutException" by simp
  from t show "trace (snd (write_static os p (Some bytes) n timeout w))
      = trace w @ retry_events p (attempts timeout - 1)" by simp
  from t show "filter is_write (drop (length (trace w))
      (trace (snd (write_static os p (Some bytes) n timeout w)))) = []" by simp
next
  assume a: "(\<forall>j<k. open_fails os j) \<and> open_res os k = Done fd \<and> k < attempts timeout"
  then have f: "\<forall>j<k. open_fails os j" and f0: "\<forall>j<k. open_fails os (0 + j)"
    and d: "open_res os k = Done fd" and d0: "open_res os (0 + k) = Done fd"
    and k: "int k < max 1 timeout" by (simp_all add: attempts_less)
  note t = write_static_opened [OF f d k, of p bytes n w]
  from t show "trace (snd (write_static os p (Some bytes) n timeout w))
      = trace w @ retry_events p k @ SysWrite (int fd) (take n bytes) # close_events os (int fd)"
    by simp
  from t show "filter is_write (drop (length (trace w))
      (trace (snd (write_static os p (Some bytes) n timeout w)))) = [SysWrite (int fd) (take n bytes)]"
    by simp
  from open_retry_succeeds [OF f0 d0 k, of p w]
  show "fst (snd (open_retry os p timeout 0 w)) = timeout - int k * PIPE_WRITE_WAIT_INTERVAL"
    by simp
  from t show "\<forall>e. write_res os = Fail e \<longrightarrow>
      fst (write_static os p (Some bytes) n timeout w) = Inl (PipeException e ''Write'')"
    by simp
qed

text \<open>
  The test's write of 500 ms to a path without a pipe, and a write whose third open
  succeeds and whose \<^verbatim>\<open>::write\<close> fails with \<^verbatim>\<open>EPIPE\<close>.
\<close>

theorem write_retries_until_timeout_witness:
  "fst (write_static quiet_env ''metaTestPipe'' (Some [0, 1, 1, 2, 3, 5, 8]) 7 500 world0)
     = Inl TimeoutException
   \<and> trace (snd (write_static quiet_env ''metaTestPipe'' (Some [0, 1, 1, 2, 3, 5, 8]) 7 500 world0))
     = retry_events ''metaTestPipe'' 499
   \<and> fst (write_static late_listener ''metaTestPipe'' (Some [0, 1, 1, 2, 3, 5, 8]) 7 500 world0)
     = Inl (PipeException 32 ''Write'')
   \<and> trace (snd (write_static late_listener ''metaTestPipe'' (Some [0, 1, 1, 2, 3, 5, 8]) 7 500 world0))
     = retry_events ''metaTestPipe'' 2 @ [SysWrite 4 [0, 1, 1, 2, 3, 5, 8], SysClose 4]
   \<and> fst (snd (open_retry late_listener ''metaTestPipe'' 500 0 world0)) = 498"
  using write_retries_until_timeout [where os = quiet_env and p = "''metaTestPipe''"
      and bytes = "[0, 1, 1, 2, 3, 5, 8]" and n = 7 and timeout = 500 and w = world0]
    write_retries_until_timeout [where os = late_listener and p = "''metaTestPipe''"
      and bytes = "[0, 1, 1, 2, 3, 5, 8]" and n = 7 and timeout = 500 and w = world0
      and k = 2 and fd = 4]
  by (simp add: attempts_def world0_def close_events_def PIPE_WRITE_WAIT_INTERVAL_def)

section \<open>Destruction\<close>

text \<open>
  C5. \<^verbatim>\<open>destroy()\<close> on a valid object stores \<open>true\<close> into the flag, then removes the
  filesystem entry at the path the object still holds, then clears the path: the trace is
  the store, the removal of the old path and, when the removal failed, one line on
  \<^verbatim>\<open>std::cerr\<close>. The object is then invalid, and any number of further calls, the
  destructor's included, leave the object, \<^verbatim>\<open>errno\<close> and the system calls as they are
  (they only repeat the store of \<open>true\<close>). The function has no failing result.
\<close>

theorem destroy_once_then_noop:
  assumes "isValid this"
  shows "fst (destroy os (this, w)) = this\<lparr>m_break := True, m_pipePath := []\<rparr>
    \<and> trace (snd (destroy os (this, w))) =
        trace w @ [StoreBreak True, FsRemove (m_pipePath this)]
          @ (if remove_res os = 0 then [] else [CerrCode ''Failed at deleting pipe-object: '' (remove_res os)])
    \<and> \<not> isValid (fst (destroy os (this, w)))
    \<and> fst ((destroy os' ^^ n) (destroy os (this, w))) = fst (destroy os (this, w))
    \<and> filter os_action (trace (snd ((destroy os' ^^ n) (destroy os (this, w)))))
        = filter os_action (trace (snd (destroy os (this, w))))
    \<and> errno (snd ((destroy os' ^^ n) (destroy os (this, w)))) = errno (snd (destroy os (this, w)))
    \<and> destructor os' (destroy os (this, w))
        = (fst (destroy os (this, w)), emit (StoreBreak True) (snd (destroy os (this, w))))"
proof -
  from assms have p: "m_pipePath this \<noteq> []" by (simp add: isValid_def)
  obtain this' w' where d: "destroy os (this, w) = (this', w')" by (cases "destroy os (this, w)")
  with destroy_valid [OF p, of os w]
  have e: "m_pipePath this' = []" "m_break this'" by auto
  show ?thesis
    unfolding d destroy_again [OF e] destructor_def destroy_invalid [OF e(1)]
    using d e destroy_valid [OF p, of os w] by (auto simp: isValid_def)
qed

text \<open>
  The same at a pipe whose removal fails with \<^verbatim>\<open>EACCES = 13\<close>.
\<close>

theorem destroy_once_then_noop_witness:
  "isValid (NamedPipe_of ''ioTestPipe'')
   \<and> fst (destroy (quiet_env\<lparr>remove_res := 13\<rparr>) (NamedPipe_of ''ioTestPipe'', world0))
       = \<lparr>m_pipePath = [], m_break = True\<rparr>
   \<and> trace (snd (destroy (quiet_env\<lparr>remove_res := 13\<rparr>) (NamedPipe_of ''ioTestPipe'', world0)))
       = [StoreBreak True, FsRemove ''ioTestPipe'', CerrCode ''Failed at deleting pipe-object: '' 13]
   \<and> trace (snd ((destroy quiet_env ^^ 2) (destroy (quiet_env\<lparr>remove_res := 13\<rparr>) (NamedPipe_of ''ioTestPipe'', world0))))
       = [StoreBreak True, FsRemove ''ioTestPipe'', CerrCode ''Failed at deleting pipe-object: '' 13,
          StoreBreak True, StoreBreak True]"
  using destroy_once_then_noop [where this = "NamedPipe_of ''ioTestPipe''"
      and os = "quiet_env\<lparr>remove_res := 13\<rparr>" and w = world0 and os' = quiet_env and n = 2]
  by (simp add: isValid_def NamedPipe_of_def quiet_env_def world0_def destroy_def fs_remove_def
      emit_def Let_def numeral_2_eq_2)

section \<open>Moving\<close>

text \<open>
  C6, as stated, fails: no move clears the interrupt flag of its source. The POSIX moves
  leave a set flag set, and the Windows move assignment sets the flag of a source whose flag
  was clear.
\<close>

theorem move_flag_counterexample:
  "m_break (snd (move_construct \<lparr>m_pipePath = ''ioTestPipe'', m_break = True\<rparr>)) = True
   \<and> m_break (two_pipes 1) = True \<and> m_break (move_assign 0 1 two_pipes 1) = True
   \<and> m_break (two_pipes_win 2) = False \<and> m_break (move_assign_win 0 2 two_pipes_win 2) = True"
  by (simp add: move_construct_def move_assign_def move_assign_win_def two_pipes_def
      two_pipes_win_def Let_def)

text \<open>
  C6, amended. The move constructors, and the move assignments between two different
  objects, hand the path (on Windows also the handle) to the destination, and every move
  leaves the source with the empty path, hence invalid (on Windows with the invalid handle).
  A move assignment of an object to itself leaves this one object empty: nothing is
  transferred, and nothing is released. The source's flag is never cleared: the POSIX moves
  and the Windows move constructor leave it as it was, the Windows move assignment copies it
  to the destination and then sets it in the source. An assignment changes no third object.
\<close>

theorem move_transfers_path:
  "fst (move_construct other) = \<lparr>m_pipePath = m_pipePath other, m_break = False\<rparr>
   \<and> snd (move_construct other) = other\<lparr>m_pipePath := []\<rparr>
   \<and> isValid (fst (move_construct other)) = isValid other
   \<and> \<not> isValid (snd (move_construct other)) \<and> getPath (snd (move_construct other)) = []
   \<and> m_break (snd (move_construct other)) = m_break other
   \<and> move_assign this src s this
       = (if this = src then (s this)\<lparr>m_pipePath := []\<rparr>
          else (s this)\<lparr>m_pipePath := m_pipePath (s src)\<rparr>)
   \<and> move_assign this src s src = (s src)\<lparr>m_pipePath := []\<rparr>
   \<and> move_assign this src s a = (if a = this \<or> a = src then move_assign this src s a else s a)
   \<and> isValid (move_assign this src s this) = (if this = src then False else isValid (s src))
   \<and> \<not> isValid (move_assign this src s src) \<and> getPath (move_assign this src s src) = []
   \<and> m_break (move_assign this src s src) = m_break (s src)
   \<and> fst (move_construct_win otherw)
       = \<lparr>m_pipePath = m_pipePath otherw, m_break = False, m_handle = m_handle otherw\<rparr>
   \<and> snd (move_construct_win otherw) = otherw\<lparr>m_pipePath := [], m_handle := - 1\<rparr>
   \<and> \<not> isValid (snd (move_construct_win otherw))
   \<and> m_break (snd (move_construct_win otherw)) = m_break otherw
   \<and> move_assign_win this src sw this
       = (if this = src
          then (sw this)\<lparr>m_pipePath := [], m_break := True, m_handle := - 1\<rparr>
          else (sw this)\<lparr>m_pipePath := m_pipePath (sw src), m_break := m_break (sw src),
                 m_handle := m_handle (sw src)\<rparr>)
   \<and> move_assign_win this src sw src
       = (sw src)\<lparr>m_pipePath := [], m_break := True, m_handle := - 1\<rparr>
   \<and> move_assign_win this src sw a
       = (if a = this \<or> a = src then move_assign_win this src sw a else sw a)
   \<and> \<not> isValid (move_assign_win this src sw src)
   \<and> m_break (move_assign_win this src sw src) = True"
  by (simp add: move_construct_def move_assign_def move_construct_win_def move_assign_win_def
      isValid_def getPath_def INVALID_HANDLE_VALUE_def Let_def)

section \<open>The budget of the poll loops\<close>

text \<open>
  C7, as stated, fails for a budget of zero: the bound \<open>ceil_div 0 1\<close> is no iteration,
  but the retry loop of \<^verbatim>\<open>write\<close> makes one open and the wait loop of
  \<^verbatim>\<open>read_blocking\<close> one poll before they raise the timeout.
\<close>

theorem poll_bound_counterexample:
  "\<not> int (length (filter is_open
        (trace (snd (snd (open_retry quiet_env ''metaTestPipe'' 0 0 world0))))))
       \<le> ceil_div 0 PIPE_WRITE_WAIT_INTERVAL
   \<and> \<not> int (length (filter is_poll (trace (snd (snd
        (wait_readable idle_reader (NamedPipe_of ''metaTestPipe'') 3 (- 1) 0 0 world0))))))
       \<le> ceil_div 0 PIPE_WAIT_INTERVAL"
proof -
  have a: "\<forall>j<attempts 0. open_fails quiet_env (0 + j)" by simp
  have b: "\<forall>j<attempts 0. poll_idle idle_reader (0 + j)
      \<and> \<not> load_break idle_reader (NamedPipe_of ''metaTestPipe'') (0 + j)" by simp
  show ?thesis
    using open_retry_times_out [OF a, of "''metaTestPipe''" world0]
      wait_readable_times_out [OF b, of 3 "- 1" world0]
    by (simp add: world0_def attempts_def ceil_div_def PIPE_WAIT_INTERVAL_def
        PIPE_WRITE_WAIT_INTERVAL_def)
qed

text \<open>
  C7, amended. Whatever the operating system answers, the retry loop of \<^verbatim>\<open>write\<close>
  and the wait loop of \<^verbatim>\<open>read_blocking\<close> end: after \<open>k + 1\<close> iterations with
  \<open>k < attempts timeout\<close>, that is after at most \<open>max 1 (ceil_div timeout interval)\<close>
  opens or polls, with a sleep respectively a poll of one interval each, and with a handle,
  readiness, the timeout or the interrupt. The budget left is the budget given less \<open>k\<close>
  intervals, and a budget that is not negative at the call does not become negative.
\<close>

theorem poll_loops_bounded:
  "(\<exists>k<attempts timeout.
        trace (snd (snd (open_retry os p timeout i w))) = trace w @ retry_events p k
      \<and> fst (snd (open_retry os p timeout i w)) = timeout - int k * PIPE_WRITE_WAIT_INTERVAL)
   \<and> (\<exists>k<attempts timeout.
        trace (snd (snd (wait_readable os this h revents timeout i w))) = trace w @ polls h (Suc k)
      \<and> fst (snd (wait_readable os this h revents timeout i w))
          = timeout - int k * PIPE_WAIT_INTERVAL)
   \<and> length (filter is_open (drop (length (trace w))
        (trace (snd (snd (open_retry os p timeout i w))))))
       \<le> nat (max 1 (ceil_div timeout PIPE_WRITE_WAIT_INTERVAL))
   \<and> length (filter is_poll (drop (length (trace w))
        (trace (snd (snd (wait_readable os this h revents timeout i w))))))
       \<le> nat (max 1 (ceil_div timeout PIPE_WAIT_INTERVAL))
   \<and> (0 \<le> timeout \<longrightarrow>
        0 \<le> fst (snd (open_retry os p timeout i w))
      \<and> 0 \<le> fst (snd (wait_readable os this h revents timeout i w)))
   \<and> (fst (open_retry os p timeout i w) = Inl TimeoutException
        \<or> (\<exists>fd. fst (open_retry os p timeout i w) = Inr (int fd)))
   \<and> (fst (wait_readable os this h revents timeout i w) = Inl TimeoutException
        \<or> fst (wait_readable os this h revents timeout i w) = Inl InterruptException
        \<or> fst (wait_readable os this h revents timeout i w) = Inr ())"
proof -
  from open_retry_budget [of timeout os p i w] obtain k where
    k: "int k < max 1 timeout"
      "fst (snd (open_retry os p timeout i w)) = timeout - int k * PIPE_WRITE_WAIT_INTERVAL"
      "trace (snd (snd (open_retry os p timeout i w))) = trace w @ retry_events p k"
    and ko: "fst (open_retry os p timeout i w) = Inl TimeoutException
        \<or> (\<exists>fd. fst (open_retry os p timeout i w) = Inr (int fd))" by blast
  from wait_readable_budget [of timeout os this h revents i w] obtain l where
    l: "int l < max 1 timeout"
      "fst (snd (wait_readable os this h revents timeout i w))
         = timeout - int l * PIPE_WAIT_INTERVAL"
      "trace (snd (snd (wait_readable os this h revents timeout i w))) = trace w @ polls h (Suc l)"
    and lo: "fst (wait_readable os this h revents timeout i w) = Inl TimeoutException
        \<or> fst (wait_readable os this h revents timeout i w) = Inl InterruptException
        \<or> fst (wait_readable os this h revents timeout i w) = Inr ()" by blast
  from k(1) l(1) have kl: "k < attempts timeout" "l < attempts timeout"
    by (simp_all add: attempts_less)
  have c1: "length (filter is_open (drop (length (trace w))
        (trace (snd (snd (open_retry os p timeout i w))))))
       \<le> nat (max 1 (ceil_div timeout PIPE_WRITE_WAIT_INTERVAL))"
    using kl(1) by (simp add: k(3) flip: attempts_ceil_div(2))
  have c2: "length (filter is_poll (drop (length (trace w))
        (trace (snd (snd (wait_readable os this h revents timeout i w))))))
       \<le> nat (max 1 (ceil_div timeout PIPE_WAIT_INTERVAL))"
    using kl(2) by (simp add: l(3) flip: attempts_ceil_div(1))
  have nn: "0 \<le> timeout \<longrightarrow>
        0 \<le> fst (snd (open_retry os p timeout i w))
      \<and> 0 \<le> fst (snd (wait_readable os this h revents timeout i w))"
    using k(1) l(1) unfolding k(2) l(2)
    by (auto simp: PIPE_WAIT_INTERVAL_def PIPE_WRITE_WAIT_INTERVAL_def)
  from k(2,3) kl(1) have e1: "\<exists>k<attempts timeout.
        trace (snd (snd (open_retry os p timeout i w))) = trace w @ retry_events p k
      \<and> fst (snd (open_retry os p timeout i w)) = timeout - int k * PIPE_WRITE_WAIT_INTERVAL"
    by blast
  from l(2,3) kl(2) have e2: "\<exists>k<attempts timeout.
        trace (snd (snd (wait_readable os this h revents timeout i w))) = trace w @ polls h (Suc k)
      \<and> fst (snd (wait_readable os this h revents timeout i w))
          = timeout - int k * PIPE_WAIT_INTERVAL"
    by blast
  from e1 e2 c1 c2 nn ko lo show ?thesis by blast
qed

text \<open>
  Both loops at the budget of 500 ms of the tests.
\<close>

theorem poll_loops_bounded_witness:
  "length (filter is_open (trace (snd (snd (open_retry quiet_env ''metaTestPipe'' 500 0 world0)))))
     \<le> 500
   \<and> length (filter is_poll (trace (snd (snd
        (wait_readable idle_reader (NamedPipe_of ''metaTestPipe'') 3 (- 1) 500 0 world0)))))
     \<le> 500
   \<and> 0 \<le> fst (snd (open_retry quiet_env ''metaTestPipe'' 500 0 world0))
   \<and> 0 \<le> fst (snd (wait_readable idle_reader (NamedPipe_of ''metaTestPipe'') 3 (- 1) 500 0 world0))"
  using poll_loops_bounded [where os = quiet_env and p = "''metaTestPipe''" and timeout = 500
      and i = 0 and w = world0]
    poll_loops_bounded [where os = idle_reader and this = "NamedPipe_of ''metaTestPipe''"
      and h = 3 and revents = "- 1" and timeout = 500 and i = 0 and w = world0]
  by (simp add: world0_def ceil_div_def PIPE_WAIT_INTERVAL_def PIPE_WRITE_WAIT_INTERVAL_def)

section \<open>The interrupt flag and validity\<close>

text \<open>
  C8. \<^verbatim>\<open>interrupt()\<close> is idempotent: one call or any larger number of calls leave the
  object in the same state, the one with \<^verbatim>\<open>m_break\<close> set and the path as it was. The
  calls issue no system call and print nothing, they leave \<^verbatim>\<open>errno\<close> alone, and the
  function has no failing result: it is total and returns the object.
\<close>

theorem interrupt_idempotent:
  "fst ((interrupt ^^ Suc n) (this, w)) = fst (interrupt (this, w))
   \<and> fst (interrupt (this, w)) = this\<lparr>m_break := True\<rparr>
   \<and> m_break (fst ((interrupt ^^ Suc n) (this, w))) = True
   \<and> filter os_action (trace (snd ((interrupt ^^ Suc n) (this, w)))) = filter os_action (trace w)
   \<and> errno (snd ((interrupt ^^ Suc n) (this, w))) = errno w"
  unfolding interrupt_funpow by (simp add: interrupt_def)

text \<open>
  C9. \<^verbatim>\<open>operator bool\<close> is true exactly when the path is not empty, \<^verbatim>\<open>getPath()\<close>
  is empty exactly when the object is invalid, and it is empty for a default-constructed
  object, for the source of each of the four moves and for a destroyed object.
\<close>

theorem isValid_iff_path_nonempty:
  "isValid this = (m_pipePath this \<noteq> [])
   \<and> isValid this = (getPath this \<noteq> [])
   \<and> (getPath this = []) = (\<not> isValid this)
   \<and> getPath (snd (move_construct other)) = []
   \<and> getPath (move_assign dst src s src) = []
   \<and> getPath (snd (move_construct_win otherw)) = []
   \<and> getPath (move_assign_win dst src sw src) = []
   \<and> getPath NamedPipe_default = []
   \<and> getPath (fst (destroy os (other, w))) = []"
  by (simp add: isValid_def getPath_def move_construct_def move_assign_def
      move_construct_win_def move_assign_win_def NamedPipe_default_def destroy_def Let_def
      split: prod.splits)

section \<open>Partial writes\<close>

text \<open>
  C10. Once the pipe is open, whatever number \<open>m\<close> of bytes \<^verbatim>\<open>::write\<close> reports as
  taken, also one below the size of the message, \<^verbatim>\<open>write\<close> returns normally, and the
  one \<^verbatim>\<open>::write\<close> with the whole range is the only one it issues: the rest of the message
  is not written again.
\<close>

theorem partial_write_reported_as_success:
  assumes "\<forall>j<k. open_fails os j" "open_res os k = Done fd" "k < attempts timeout"
    and "write_res os = Done m"
  shows "fst (write_static os p (Some bytes) n timeout w) = Inr ()
     \<and> filter is_write (drop (length (trace w))
          (trace (snd (write_static os p (Some bytes) n timeout w))))
         = [SysWrite (int fd) (take n bytes)]
     \<and> accepted os (take n bytes) = take m (take n bytes)"
proof -
  from assms(3) have k: "int k < max 1 timeout" by (simp add: attempts_less)
  from write_static_opened [OF assms(1,2) k, of p bytes n w] assms(4)
  show ?thesis by (simp add: accepted_def)
qed

text \<open>
  A message of 70000 bytes of which the FIFO takes 65536.
\<close>

theorem partial_write_reported_as_success_witness:
  "fst (write_static short_writer ''ioTestPipe'' (Some (replicate 70000 42)) 70000 1000 world0)
     = Inr ()
   \<and> filter is_write (trace (snd (write_static short_writer ''ioTestPipe''
        (Some (replicate 70000 42)) 70000 1000 world0)))
     = [SysWrite 4 (replicate 70000 42)]
   \<and> accepted short_writer (replicate 70000 42) = replicate 65536 42"
  using partial_write_reported_as_success [where os = short_writer and k = 0 and fd = 4
      and timeout = 1000 and m = 65536 and p = "''ioTestPipe''"
      and bytes = "replicate 70000 42" and n = 70000 and w = world0]
  by (simp add: short_writer_def quiet_env_def attempts_def world0_def)

end
